theory Spec2Isabelle
  imports Complex_Main "HOL-Library.Word" "HOL-Library.Log_Nat"
begin

unbundle bit_operations_syntax

section \<open>go-pidioder: an RGB light behind a pi-blaster pipe\<close>

text \<open>
  The repository is one file, \<^verbatim>\<open>main.go\<close>, in two revisions. The first revision fades
  every channel step by step (\<^verbatim>\<open>setAll\<close> with \<^verbatim>\<open>incrementer\<close> and \<^verbatim>\<open>decrementer\<close>) and
  answers colour queries by calling a function sent by the caller. The second revision
  sets a gamma-corrected colour at once (\<^verbatim>\<open>correctColor\<close>) and answers queries over a
  reply channel, from a goroutine guarded by a five second timer. Functions that differ
  between the revisions carry the suffix \<open>_fade\<close> for the first revision and the source's
  plain name for the second; functions that are the same text in both are modelled once.
\<close>

subsection \<open>Colours and flags\<close>

type_synonym uint8 = "8 word"

record RGB =
  R :: uint8
  G :: uint8
  B :: uint8

text \<open>
  The command line flags. Go's \<^verbatim>\<open>uint\<close> pins are only ever printed, never computed with,
  so they are natural numbers here. The defaults are 17, 22, 27 and 10.
\<close>

record Flags =
  flag_R :: nat
  flag_G :: nat
  flag_B :: nat
  flag_Cooldown :: nat

definition default_flags :: Flags where
  "default_flags = \<lparr>flag_R = 17, flag_G = 22, flag_B = 27, flag_Cooldown = 10\<rparr>"

subsection \<open>float64\<close>

text \<open>
  A finite \<^verbatim>\<open>float64\<close> is the rational number it denotes. Every operation of the
  program computes the exact result and rounds it to the nearest double, ties to even
  (IEEE 754 binary64: 53 significant bits, least normal exponent \<open>-1022\<close>). Overflow to
  infinity is not modelled: the operands of the program are 8-bit integers and the
  constants 255, 119 and 51.
\<close>

type_synonym float64 = rat

definition round_even :: "rat \<Rightarrow> int" where
  "round_even q = (let m = \<lfloor>q\<rfloor>; d = q - of_int m in
     if d < 1 / 2 then m else if 1 / 2 < d then m + 1 else if even m then m else m + 1)"

text \<open>The exponent \<open>e\<close> of a non-zero \<open>x\<close>: \<open>2 ^ e \<le> \<bar>x\<bar> < 2 ^ (e + 1)\<close>.\<close>

definition float64_exponent :: "rat \<Rightarrow> int" where
  "float64_exponent x = (let (n, d) = quotient_of \<bar>x\<bar>; k = bitlen n - bitlen d
     in if 2 powi k \<le> \<bar>x\<bar> then k else k - 1)"

definition float64_round :: "rat \<Rightarrow> float64" where
  "float64_round x = (if x = 0 then 0 else
     let e = max (float64_exponent x) (- 1022); u = 2 powi (e - 52)
     in of_int (round_even (x / u)) * u)"

definition float64_of_uint8 :: "uint8 \<Rightarrow> float64" where
  "float64_of_uint8 v = of_nat (unat v)"

definition float64_div :: "float64 \<Rightarrow> float64 \<Rightarrow> float64" where
  "float64_div x y = float64_round (x / y)"

definition float64_mul :: "float64 \<Rightarrow> float64 \<Rightarrow> float64" where
  "float64_mul x y = float64_round (x * y)"

text \<open>
  Go's conversion \<^verbatim>\<open>uint8(f)\<close> drops the fraction (truncation towards zero). Outside
  0..255 Go leaves the result to the implementation; the model wraps there.
\<close>

definition uint8_of_float64 :: "float64 \<Rightarrow> uint8" where
  "uint8_of_float64 x = word_of_int (if 0 \<le> x then \<lfloor>x\<rfloor> else \<lceil>x\<rceil>)"

subsection \<open>The device sink\<close>

datatype errno = ENOENT | EACCES | EPIPE | EIO

datatype go_error =
    ErrInvalid
  | PathError errno
  | ExecError
  | ErrorString string

text \<open>
  One device command: the pin and the fraction, standing for the bytes of
  \<^verbatim>\<open>fmt.Sprintf("%d=%f\n", pin, val)\<close>.
\<close>

type_synonym command = "nat \<times> float64"

text \<open>
  An \<^verbatim>\<open>*os.File\<close>. \<open>isnil\<close> is the nil pointer that a failed \<^verbatim>\<open>os.OpenFile\<close> returns.
  \<open>woutcome k\<close> is what the operating system answers to the \<open>k\<close>-th \<^verbatim>\<open>Write\<close> on the
  handle (the environment's choice); \<open>wcalls\<close> is the trace of the \<^verbatim>\<open>Write\<close> calls made
  so far, each with its result. \<^verbatim>\<open>Write\<close> on a nil file returns \<^verbatim>\<open>os.ErrInvalid\<close>.
\<close>

record File =
  isnil :: bool
  woutcome :: "nat \<Rightarrow> errno option"
  wcalls :: "(command \<times> go_error option) list"

definition File_Write :: "File \<Rightarrow> command \<Rightarrow> File \<times> go_error option" where
  "File_Write f cmd =
     (let res = (if isnil f then Some ErrInvalid
                 else map_option PathError (woutcome f (length (wcalls f))))
      in (f\<lparr>wcalls := wcalls f @ [(cmd, res)]\<rparr>, res))"

text \<open>The commands that reached the device: the calls that did not fail.\<close>

definition received :: "File \<Rightarrow> command list" where
  "received f = map fst (filter (\<lambda>cr. snd cr = None) (wcalls f))"

subsection \<open>The Blaster and its Device Writer\<close>

text \<open>The channels of the struct are part of the actor model below, not of this record.\<close>

record Blaster =
  pipe :: File
  r :: uint8
  g :: uint8
  b :: uint8

text \<open>\<^verbatim>\<open>setPin\<close> drops the result of \<^verbatim>\<open>Write\<close> and returns nil.\<close>

definition setPin :: "Blaster \<Rightarrow> nat \<Rightarrow> float64 \<Rightarrow> Blaster \<times> go_error option" where
  "setPin bl pin val =
     (let chanCmd = (pin, val); (f, _) = File_Write (pipe bl) chanCmd
      in (bl\<lparr>pipe := f\<rparr>, None))"

definition setChannelInteger :: "Blaster \<Rightarrow> nat \<Rightarrow> uint8 \<Rightarrow> Blaster \<times> go_error option" where
  "setChannelInteger bl pin val =
     (if 255 < val then (bl, Some (ErrorString ''can't go over 255. sorry mate.''))
      else if val < 0 then (bl, Some (ErrorString ''can't go below 0. sorry mate.''))
      else let fval = float64_div (float64_of_uint8 val) 255 in setPin bl pin fval)"

text \<open>The fraction that \<^verbatim>\<open>setChannelInteger\<close> hands to \<^verbatim>\<open>setPin\<close> for a channel value.\<close>

definition fraction :: "uint8 \<Rightarrow> float64" where
  "fraction val = float64_div (float64_of_uint8 val) 255"

subsection \<open>First revision: the gradual fade\<close>

text \<open>The setters of the first revision write the channel and leave the struct alone.\<close>

definition setRed_fade :: "Flags \<Rightarrow> uint8 \<Rightarrow> Blaster \<Rightarrow> Blaster \<times> go_error option" where
  "setRed_fade fl val bl = setChannelInteger bl (flag_R fl) val"

definition setGreen_fade :: "Flags \<Rightarrow> uint8 \<Rightarrow> Blaster \<Rightarrow> Blaster \<times> go_error option" where
  "setGreen_fade fl val bl = setChannelInteger bl (flag_G fl) val"

definition setBlue_fade :: "Flags \<Rightarrow> uint8 \<Rightarrow> Blaster \<Rightarrow> Blaster \<times> go_error option" where
  "setBlue_fade fl val bl = setChannelInteger bl (flag_B fl) val"

type_synonym setterFunc = "uint8 \<Rightarrow> Blaster \<Rightarrow> Blaster \<times> go_error option"

text \<open>\<^verbatim>\<open>for i := cur; i > target; i-- { f(i) }\<close>, the error of \<^verbatim>\<open>f\<close> dropped.\<close>

function decrementer :: "uint8 \<Rightarrow> uint8 \<Rightarrow> setterFunc \<Rightarrow> Blaster \<Rightarrow> Blaster" where
  "decrementer i target f bl =
     (if target < i then decrementer (i - 1) target f (fst (f i bl)) else bl)"
  by pat_completeness auto
termination
proof (relation "measure (\<lambda>(i, target, f, bl). unat i)")
  show "wf (measure (\<lambda>(i, target, f, bl). unat i))" by simp
next
  fix i target :: uint8 and f :: setterFunc and bl :: Blaster
  assume "target < i"
  then have "i \<noteq> 0" by (metis word_not_simps(1))
  then have "unat (i - 1) < unat i" by (simp add: unat_minus_one unat_gt_0)
  then show "((i - 1, target, f, fst (f i bl)), (i, target, f, bl))
      \<in> measure (\<lambda>(i, target, f, bl). unat i)" by simp
qed

text \<open>\<^verbatim>\<open>for i := cur; i < target; i++ { f(i) }\<close>.\<close>

function incrementer :: "uint8 \<Rightarrow> uint8 \<Rightarrow> setterFunc \<Rightarrow> Blaster \<Rightarrow> Blaster" where
  "incrementer i target f bl =
     (if i < target then incrementer (i + 1) target f (fst (f i bl)) else bl)"
  by pat_completeness auto
termination
proof (relation "measure (\<lambda>(i, target, f, bl). unat target - unat i)")
  show "wf (measure (\<lambda>(i, target, f, bl). unat target - unat i))" by simp
next
  fix i target :: uint8 and f :: setterFunc and bl :: Blaster
  assume lt: "i < target"
  then have "unat i < unat target" by (simp add: word_less_nat_alt)
  moreover have "unat target < 2 ^ LENGTH(8)" by (rule unsigned_less)
  ultimately have "unat i + unat (1 :: uint8) < 2 ^ LENGTH(8)" by simp
  then have "unat (i + 1) = unat i + unat (1 :: uint8)" by (simp only: unat_add_lem)
  with \<open>unat i < unat target\<close>
  show "((i + 1, target, f, fst (f i bl)), (i, target, f, bl))
      \<in> measure (\<lambda>(i, target, f, bl). unat target - unat i)" by simp
qed

declare decrementer.simps [simp del] incrementer.simps [simp del]

definition setter :: "uint8 \<Rightarrow> uint8 \<Rightarrow> setterFunc \<Rightarrow> Blaster \<Rightarrow> Blaster" where
  "setter cur target f bl =
     (if cur < target then incrementer cur target f bl else decrementer cur target f bl)"

definition setAll_fade :: "Flags \<Rightarrow> Blaster \<Rightarrow> RGB \<Rightarrow> Blaster" where
  "setAll_fade fl bl c =
     (let bl1 = setter (r bl) (R c) (setRed_fade fl) bl;
          bl2 = setter (g bl1) (G c) (setGreen_fade fl) bl1
      in setter (b bl2) (B c) (setBlue_fade fl) bl2)"

text \<open>A setter that leaves the stored colour of the struct as it is.\<close>

definition keeps_colour :: "setterFunc \<Rightarrow> bool" where
  "keeps_colour f = (\<forall>v bl. r (fst (f v bl)) = r bl \<and> g (fst (f v bl)) = g bl \<and> b (fst (f v bl)) = b bl)"

subsection \<open>Second revision: the gamma-corrected set\<close>

definition setRed :: "Flags \<Rightarrow> Blaster \<Rightarrow> uint8 \<Rightarrow> Blaster \<times> go_error option" where
  "setRed fl bl val =
     (let (bl', err) = setChannelInteger bl (flag_R fl) val
      in if err = None then (bl'\<lparr>r := val\<rparr>, err) else (bl', err))"

definition setGreen :: "Flags \<Rightarrow> Blaster \<Rightarrow> uint8 \<Rightarrow> Blaster \<times> go_error option" where
  "setGreen fl bl val =
     (let (bl', err) = setChannelInteger bl (flag_G fl) val
      in if err = None then (bl'\<lparr>g := val\<rparr>, err) else (bl', err))"

definition setBlue :: "Flags \<Rightarrow> Blaster \<Rightarrow> uint8 \<Rightarrow> Blaster \<times> go_error option" where
  "setBlue fl bl val =
     (let (bl', err) = setChannelInteger bl (flag_B fl) val
      in if err = None then (bl'\<lparr>b := val\<rparr>, err) else (bl', err))"

definition gcorrection :: float64 where
  "gcorrection = float64_div 119 255"

definition bcorrection :: float64 where
  "bcorrection = float64_div 51 255"

definition correctColor :: "RGB \<Rightarrow> RGB" where
  "correctColor c =
     (let c1 = c\<lparr>G := uint8_of_float64 (float64_mul (float64_of_uint8 (G c)) gcorrection)\<rparr>
      in c1\<lparr>B := uint8_of_float64 (float64_mul (float64_of_uint8 (B c1)) bcorrection)\<rparr>)"

definition setAll :: "Flags \<Rightarrow> Blaster \<Rightarrow> RGB \<Rightarrow> Blaster" where
  "setAll fl bl c0 =
     (let c = correctColor c0;
          bl1 = fst (setRed fl bl (R c));
          bl2 = fst (setGreen fl bl1 (G c))
      in fst (setBlue fl bl2 (B c)))"

subsection \<open>Request adapters\<close>

text \<open>
  \<^verbatim>\<open>strconv.ParseUint(s, 10, 8)\<close> of Go's standard library, at the base and bit size
  the program calls it with. A byte is read as a digit or as a letter (\<^verbatim>\<open>lower\<close> sets
  bit 5); a digit value of 10 or more is a syntax error; \<open>n\<close> is a \<^verbatim>\<open>uint64\<close>.
\<close>

datatype NumError = ErrSyntax | ErrRange

definition lower :: "nat \<Rightarrow> nat" where
  "lower c = c OR 32"

definition digit_of :: "char \<Rightarrow> nat option" where
  "digit_of ch = (let c = of_char ch in
     if 48 \<le> c \<and> c \<le> 57 then Some (c - 48)
     else if 97 \<le> lower c \<and> lower c \<le> 122 then Some (lower c - 97 + 10)
     else None)"

definition cutoff :: nat where
  "cutoff = (2 ^ 64 - 1) div 10 + 1"

definition maxVal :: nat where
  "maxVal = 2 ^ 8 - 1"

fun ParseUint_loop :: "nat \<Rightarrow> string \<Rightarrow> NumError + nat" where
  "ParseUint_loop n [] = Inr n"
| "ParseUint_loop n (ch # s) =
     (case digit_of ch of
        None \<Rightarrow> Inl ErrSyntax
      | Some d \<Rightarrow>
          if 10 \<le> d then Inl ErrSyntax
          else if cutoff \<le> n then Inl ErrRange
          else let n10 = (n * 10) mod 2 ^ 64; n1 = (n10 + d) mod 2 ^ 64
               in if n1 < n10 \<or> maxVal < n1 then Inl ErrRange else ParseUint_loop n1 s)"

definition ParseUint :: "string \<Rightarrow> NumError + nat" where
  "ParseUint s = (if s = [] then Inl ErrSyntax else ParseUint_loop 0 s)"

definition parseUint8OrZero :: "string \<Rightarrow> uint8" where
  "parseUint8OrZero s = (case ParseUint s of Inl err \<Rightarrow> 0 | Inr i \<Rightarrow> word_of_nat i)"

text \<open>\<^verbatim>\<open>url.Values\<close> and its \<^verbatim>\<open>Get\<close>: the first value of the key, or the empty string.\<close>

type_synonym Values = "string \<rightharpoonup> string list"

definition Get :: "Values \<Rightarrow> string \<Rightarrow> string" where
  "Get vs k = (case vs k of None \<Rightarrow> [] | Some [] \<Rightarrow> [] | Some (x # _) \<Rightarrow> x)"

text \<open>\<^verbatim>\<open>fmt.Sprintf("#%02x%02x%02x", c.R, c.G, c.B)\<close>.\<close>

definition hexdigit :: "nat \<Rightarrow> char" where
  "hexdigit n = ''0123456789abcdef'' ! (n mod 16)"

definition hex2 :: "uint8 \<Rightarrow> string" where
  "hex2 v = [hexdigit (unat v div 16), hexdigit (unat v mod 16)]"

definition RGB_String :: "RGB \<Rightarrow> string" where
  "RGB_String c = ''#'' @ hex2 (R c) @ hex2 (G c) @ hex2 (B c)"

text \<open>
  What a request handler does, as the sequence of its channel operations:
  \<open>SendInput c\<close> is \<^verbatim>\<open>blaster.Input <- c\<close>; \<open>RequestColor k\<close> is the second revision's
  \<^verbatim>\<open>withRequestedColor\<close> (send a fresh reply channel on \<^verbatim>\<open>blaster.Color\<close>, receive the
  colour from it, go on with it); \<open>SendFunc f\<close> is the first revision's
  \<^verbatim>\<open>blaster.Color <- f\<close>, where \<open>f c\<close> is what the function does when it is called with
  \<open>c\<close>; \<open>Println\<close> and \<open>Write\<close> are the log line and the response body; \<open>Panic\<close> is
  the panic that \<^verbatim>\<open>errorHandler\<close> turns into a 401.
\<close>

datatype handler =
    Return
  | Panic go_error
  | SendInput RGB handler
  | RequestColor "RGB \<Rightarrow> handler"
  | SendFunc "RGB \<Rightarrow> handler" handler
  | Println RGB handler
  | Write string handler

definition withRequestedColor :: "(RGB \<Rightarrow> handler \<Rightarrow> handler) \<Rightarrow> handler \<Rightarrow> handler" where
  "withRequestedColor f rest = RequestColor (\<lambda>c. f c rest)"

text \<open>Second revision. The argument is the result of \<^verbatim>\<open>url.ParseQuery\<close>.\<close>

definition actionHandler :: "go_error + Values \<Rightarrow> handler" where
  "actionHandler q =
     (case q of
        Inl err \<Rightarrow> Panic err
      | Inr values \<Rightarrow>
          let action = Get values ''action'';
              report = withRequestedColor (\<lambda>c rest. Println c (Write (RGB_String c) rest)) Return
          in if action = ''lighter'' then
               withRequestedColor
                 (\<lambda>c rest. SendInput \<lparr>R = R c + 10, G = G c + 10, B = B c + 10\<rparr> rest) report
             else if action = ''darker'' then
               withRequestedColor
                 (\<lambda>c rest. SendInput \<lparr>R = R c - 10, G = G c - 10, B = B c - 10\<rparr> rest) report
             else if action = ''off'' then SendInput \<lparr>R = 0, G = 0, B = 0\<rparr> report
             else if action = ''set'' then
               let rv = parseUint8OrZero (Get values ''r'');
                   gv = parseUint8OrZero (Get values ''g'');
                   bv = parseUint8OrZero (Get values ''b'')
               in SendInput \<lparr>R = rv, G = gv, B = bv\<rparr> report
             else report)"

definition currentColorHandler :: handler where
  "currentColorHandler = withRequestedColor (\<lambda>c rest. Write (RGB_String c) rest) Return"

text \<open>
  First revision: the query carries a function, and nothing is written back. The two
  function literals of the source are named after their action.
\<close>

definition lighter_func :: "RGB \<Rightarrow> handler" where
  "lighter_func c = SendInput \<lparr>R = R c + 10, G = G c + 10, B = B c + 10\<rparr> Return"

definition darker_func :: "RGB \<Rightarrow> handler" where
  "darker_func c = SendInput \<lparr>R = R c - 10, G = G c - 10, B = B c - 10\<rparr> Return"

definition actionHandler_fade :: "go_error + Values \<Rightarrow> handler" where
  "actionHandler_fade q =
     (case q of
        Inl err \<Rightarrow> Panic err
      | Inr values \<Rightarrow>
          let action = Get values ''action''
          in if action = ''lighter'' then
               SendFunc lighter_func Return
             else if action = ''darker'' then
               SendFunc darker_func Return
             else if action = ''off'' then SendInput \<lparr>R = 0, G = 0, B = 0\<rparr> Return
             else if action = ''set'' then
               let rv = parseUint8OrZero (Get values ''r'');
                   gv = parseUint8OrZero (Get values ''g'');
                   bv = parseUint8OrZero (Get values ''b'')
               in SendInput \<lparr>R = rv, G = gv, B = bv\<rparr> Return
             else Return)"

text \<open>
  The target of the first SetColor message a handler sends, when the colour \<open>cur\<close> is
  the reply to the queries it makes before.
\<close>

primrec SetColor_target :: "handler \<Rightarrow> RGB \<Rightarrow> RGB option" where
  "SetColor_target Return cur = None"
| "SetColor_target (Panic err) cur = None"
| "SetColor_target (SendInput c rest) cur = Some c"
| "SetColor_target (RequestColor k) cur = SetColor_target (k cur) cur"
| "SetColor_target (SendFunc f rest) cur = SetColor_target rest cur"
| "SetColor_target (Println c rest) cur = SetColor_target rest cur"
| "SetColor_target (Write s rest) cur = SetColor_target rest cur"

text \<open>The reading of a query field that the interface description gives.\<close>

definition is_decimal_digit :: "char \<Rightarrow> bool" where
  "is_decimal_digit ch = (48 \<le> (of_char ch :: nat) \<and> (of_char ch :: nat) \<le> 57)"

definition decimal_value :: "string \<Rightarrow> nat" where
  "decimal_value s = foldl (\<lambda>n ch. n * 10 + (of_char ch - 48)) 0 s"

definition field_value :: "string \<Rightarrow> uint8" where
  "field_value s =
     (if s \<noteq> [] \<and> list_all is_decimal_digit s \<and> decimal_value s \<le> 255
      then word_of_nat (decimal_value s) else 0)"

subsection \<open>Start-up\<close>

text \<open>
  The operating system as the program meets it at start-up: \<open>open_outcome k\<close> is the
  answer to the \<open>k\<close>-th \<^verbatim>\<open>os.OpenFile("/dev/pi-blaster", ...)\<close>, \<open>start_outcome k\<close> the
  answer to the \<open>k\<close>-th run of the \<^verbatim>\<open>pi-blaster\<close> command, and the two counters say how
  often each has been called.
\<close>

record World =
  open_outcome :: "nat \<Rightarrow> errno + File"
  start_outcome :: "nat \<Rightarrow> go_error option"
  open_calls :: nat
  start_calls :: nat

definition no_fault :: "nat \<Rightarrow> errno option" where
  "no_fault k = None"

definition nil_File :: File where
  "nil_File = \<lparr>isnil = True, woutcome = no_fault, wcalls = []\<rparr>"

definition os_OpenFile :: "World \<Rightarrow> (File \<times> go_error option) \<times> World" where
  "os_OpenFile w =
     ((case open_outcome w (open_calls w) of
         Inl e \<Rightarrow> (nil_File, Some (PathError e))
       | Inr f \<Rightarrow> (f\<lparr>isnil := False\<rparr>, None)),
      w\<lparr>open_calls := Suc (open_calls w)\<rparr>)"

definition attemptPiBlasterStart :: "World \<Rightarrow> go_error option \<times> World" where
  "attemptPiBlasterStart w =
     (start_outcome w (start_calls w), w\<lparr>start_calls := Suc (start_calls w)\<rparr>)"

text \<open>\<open>Inl err\<close> is \<^verbatim>\<open>log.Fatal(err)\<close>; \<open>Inr file\<close> is the returned file.\<close>

definition mustOpenPiBlaster :: "World \<Rightarrow> (go_error + File) \<times> World" where
  "mustOpenPiBlaster w =
     (let ((file, err), w1) = os_OpenFile w;
          (err2, w2) = (if err = Some (PathError ENOENT) then attemptPiBlasterStart w1
                        else (err, w1))
      in case err2 of
           Some e \<Rightarrow> (Inl e, w2)
         | None \<Rightarrow> (Inr file, w2))"

definition NewBlaster :: Blaster where
  "NewBlaster = \<lparr>pipe = nil_File, r = 0, g = 0, b = 0\<rparr>"

subsection \<open>Second revision: the actor and its query guards\<close>

text \<open>
  The process as a transition system. The events are the communications of the
  goroutines: the actor's \<^verbatim>\<open>select\<close> receives a colour from \<^verbatim>\<open>Input\<close> or a reply
  channel (a number) from \<^verbatim>\<open>Color\<close>; a guard goroutine, once spawned, enters its own
  \<^verbatim>\<open>select\<close> (there Go evaluates \<^verbatim>\<open>RGB{b.r, b.g, b.b}\<close> and starts the timer), and then
  either a receiver takes the colour (\<open>Deliver\<close>) or the five seconds pass first
  (\<open>Timeout\<close>), where \<^verbatim>\<open>log.Fatal\<close> writes the line and ends the process with status 1.
  Time is the environment's choice between the last two events. A step is \<open>None\<close>
  when the event cannot happen, and nothing happens in a process that has exited.
  \<^verbatim>\<open>setAll\<close> is one step: the actor does nothing else while it runs.
\<close>

datatype proc = Alive | Exited nat

datatype log_entry = LogError go_error | LogLine string

datatype guard = Spawned nat | Selecting nat RGB

datatype event = RecvInput RGB | RecvColor nat | Enter nat | Deliver nat | Timeout nat

record System =
  actor :: Blaster
  guards :: "guard list"
  replies :: "(nat \<times> RGB) list"
  logs :: "log_entry list"
  proc :: proc

fun selecting :: "nat \<Rightarrow> guard list \<Rightarrow> RGB option" where
  "selecting ch [] = None"
| "selecting ch (Spawned ch' # gs) = selecting ch gs"
| "selecting ch (Selecting ch' v # gs) = (if ch' = ch then Some v else selecting ch gs)"

text \<open>\<^verbatim>\<open>b.pipe = mustOpenPiBlaster()\<close>, before the loop.\<close>

definition Run_start :: "World \<Rightarrow> System" where
  "Run_start w =
     (case fst (mustOpenPiBlaster w) of
        Inl e \<Rightarrow> \<lparr>actor = NewBlaster, guards = [], replies = [], logs = [LogError e],
                  proc = Exited 1\<rparr>
      | Inr file \<Rightarrow> \<lparr>actor = NewBlaster\<lparr>pipe := file\<rparr>, guards = [], replies = [], logs = [],
                  proc = Alive\<rparr>)"

definition Run_step :: "Flags \<Rightarrow> event \<Rightarrow> System \<Rightarrow> System option" where
  "Run_step fl ev s =
     (if proc s \<noteq> Alive then None
      else case ev of
        RecvInput c \<Rightarrow> Some (s\<lparr>actor := setAll fl (actor s) c\<rparr>)
      | RecvColor ch \<Rightarrow> Some (s\<lparr>guards := guards s @ [Spawned ch]\<rparr>)
      | Enter ch \<Rightarrow>
          if Spawned ch \<in> set (guards s)
          then Some (s\<lparr>guards := remove1 (Spawned ch) (guards s)
                  @ [Selecting ch \<lparr>R = r (actor s), G = g (actor s), B = b (actor s)\<rparr>]\<rparr>)
          else None
      | Deliver ch \<Rightarrow>
          (case selecting ch (guards s) of
             None \<Rightarrow> None
           | Some v \<Rightarrow> Some (s\<lparr>guards := remove1 (Selecting ch v) (guards s),
                               replies := replies s @ [(ch, v)]\<rparr>))
      | Timeout ch \<Rightarrow>
          (case selecting ch (guards s) of
             None \<Rightarrow> None
           | Some v \<Rightarrow> Some (s\<lparr>logs := logs s @ [LogLine ''Requested color chan blocked too long.''],
                               proc := Exited 1\<rparr>)))"

fun Run :: "Flags \<Rightarrow> event list \<Rightarrow> System \<Rightarrow> System option" where
  "Run fl [] s = Some s"
| "Run fl (ev # evs) s = (case Run_step fl ev s of None \<Rightarrow> None | Some s' \<Rightarrow> Run fl evs s')"

subsection \<open>First revision: the actor calls the query\<close>






subsection \<open>Named inputs\<close>

text \<open>A pipe that takes every write, and one whose reader has gone away.\<close>

definition broken :: "nat \<Rightarrow> errno option" where
  "broken k = Some EPIPE"

definition good_File :: File where
  "good_File = \<lparr>isnil = False, woutcome = no_fault, wcalls = []\<rparr>"

definition broken_File :: File where
  "broken_File = \<lparr>isnil = False, woutcome = broken, wcalls = []\<rparr>"

definition good_System :: System where
  "good_System = \<lparr>actor = NewBlaster\<lparr>pipe := good_File\<rparr>, guards = [], replies = [], logs = [],
     proc = Alive\<rparr>"

definition broken_System :: System where
  "broken_System = \<lparr>actor = NewBlaster\<lparr>pipe := broken_File\<rparr>, guards = [], replies = [],
     logs = [], proc = Alive\<rparr>"


text \<open>
  A machine where the pipe does not exist until the daemon runs: the first open fails
  with \<^verbatim>\<open>ENOENT\<close>, starting \<^verbatim>\<open>pi-blaster\<close> succeeds, and any later open would succeed.
\<close>

definition open_after_start :: "nat \<Rightarrow> errno + File" where
  "open_after_start k = (if k = 0 then Inl ENOENT else Inr good_File)"

definition start_ok :: "nat \<Rightarrow> go_error option" where
  "start_ok k = None"

definition daemon_down :: World where
  "daemon_down = \<lparr>open_outcome = open_after_start, start_outcome = start_ok,
     open_calls = 0, start_calls = 0\<rparr>"

section \<open>Request adapters: lighter, darker and set\<close>

lemma digit_of_digit:
  "is_decimal_digit ch \<Longrightarrow> digit_of ch = Some (of_char ch - 48) \<and> (of_char ch :: nat) - 48 < 10"
  by (auto simp: is_decimal_digit_def digit_of_def Let_def)

lemma digit_of_other:
  "\<not> is_decimal_digit ch \<Longrightarrow> digit_of ch = None \<or> (\<exists>d. digit_of ch = Some d \<and> 10 \<le> d)"
  by (auto simp: is_decimal_digit_def digit_of_def Let_def)

lemma foldl_decimal_ge:
  "(n :: nat) \<le> foldl (\<lambda>n ch. n * 10 + (of_char ch - 48)) n s"
proof (induction s arbitrary: n)
  case Nil
  show ?case by simp
next
  case (Cons ch s)
  have "n \<le> n * 10 + (of_char ch - 48)" by simp
  also have "\<dots> \<le> foldl (\<lambda>n ch. n * 10 + (of_char ch - 48)) (n * 10 + (of_char ch - 48)) s"
    by (rule Cons.IH)
  finally show ?case by simp
qed

lemma ParseUint_loop_digits:
  "n \<le> 255 \<Longrightarrow> list_all is_decimal_digit s
   \<Longrightarrow> foldl (\<lambda>n ch. n * 10 + (of_char ch - 48)) n s \<le> 255
   \<Longrightarrow> ParseUint_loop n s = Inr (foldl (\<lambda>n ch. n * 10 + (of_char ch - 48)) n s)"
proof (induction s arbitrary: n)
  case Nil
  show ?case by simp
next
  case (Cons ch s)
  let ?n1 = "n * 10 + (of_char ch - 48)"
  from Cons.prems have dig: "is_decimal_digit ch" and rest: "list_all is_decimal_digit s"
    by simp_all
  from Cons.prems have fin: "foldl (\<lambda>n ch. n * 10 + (of_char ch - 48)) ?n1 s \<le> 255"
    by simp
  have "?n1 \<le> foldl (\<lambda>n ch. n * 10 + (of_char ch - 48)) ?n1 s"
    by (rule foldl_decimal_ge)
  with fin have n1: "?n1 \<le> 255" by simp
  have step: "ParseUint_loop n (ch # s) = ParseUint_loop ?n1 s"
    using digit_of_digit [OF dig] Cons.prems(1) n1
    by (simp add: cutoff_def maxVal_def Let_def)
  show ?case unfolding step using Cons.IH [OF n1 rest fin] by simp
qed

lemma ParseUint_loop_fails:
  "n \<le> 255 \<Longrightarrow> \<not> (list_all is_decimal_digit s
      \<and> foldl (\<lambda>n ch. n * 10 + (of_char ch - 48)) n s \<le> 255)
   \<Longrightarrow> isl (ParseUint_loop n s)"
proof (induction s arbitrary: n)
  case Nil
  then show ?case by simp
next
  case (Cons ch s)
  let ?n1 = "n * 10 + (of_char ch - 48)"
  show ?case
  proof (cases "is_decimal_digit ch")
    case False
    from digit_of_other [OF False] show ?thesis by auto
  next
    case dig: True
    show ?thesis
    proof (cases "?n1 \<le> 255")
      case False
      then show ?thesis
        using digit_of_digit [OF dig] Cons.prems(1)
        by (simp add: cutoff_def maxVal_def Let_def)
    next
      case n1: True
      have step: "ParseUint_loop n (ch # s) = ParseUint_loop ?n1 s"
        using digit_of_digit [OF dig] Cons.prems(1) n1
        by (simp add: cutoff_def maxVal_def Let_def)
      from Cons.prems(2) dig
      have "\<not> (list_all is_decimal_digit s
          \<and> foldl (\<lambda>n ch. n * 10 + (of_char ch - 48)) ?n1 s \<le> 255)"
        by simp
      from Cons.IH [OF n1 this] show ?thesis unfolding step .
    qed
  qed
qed

lemma parseUint8OrZero_field_value: "parseUint8OrZero s = field_value s"
proof (cases "s \<noteq> [] \<and> list_all is_decimal_digit s \<and> decimal_value s \<le> 255")
  case True
  then have "ParseUint_loop 0 s = Inr (decimal_value s)"
    unfolding decimal_value_def by (intro ParseUint_loop_digits) simp_all
  with True show ?thesis
    by (simp add: parseUint8OrZero_def ParseUint_def field_value_def)
next
  case False
  show ?thesis
  proof (cases "s = []")
    case True
    then show ?thesis by (simp add: parseUint8OrZero_def ParseUint_def field_value_def)
  next
    case ne: False
    with False have "isl (ParseUint_loop 0 s)"
      unfolding decimal_value_def by (intro ParseUint_loop_fails) simp_all
    then obtain e where "ParseUint_loop 0 s = Inl e" by (cases "ParseUint_loop 0 s") simp_all
    with False ne show ?thesis
      by (auto simp: parseUint8OrZero_def ParseUint_def field_value_def)
  qed
qed

text \<open>
  C7. The lighter and the darker action add and subtract 10 on every channel of the
  queried colour in 8-bit arithmetic that wraps around modulo 256 and does not saturate:
  lighter on the colour (250, 250, 250) sends the SetColor target (4, 4, 4).
\<close>

theorem lighter_darker_wrap:
  "(Get vs ''action'' = ''lighter'' \<longrightarrow>
      (\<exists>t. SetColor_target (actionHandler (Inr vs)) c = Some t
        \<and> unat (R t) = (unat (R c) + 10) mod 256
        \<and> unat (G t) = (unat (G c) + 10) mod 256
        \<and> unat (B t) = (unat (B c) + 10) mod 256))
   \<and> (Get vs ''action'' = ''darker'' \<longrightarrow>
      (\<exists>t. SetColor_target (actionHandler (Inr vs)) c = Some t
        \<and> unat (R t) = (unat (R c) + 246) mod 256
        \<and> unat (G t) = (unat (G c) + 246) mod 256
        \<and> unat (B t) = (unat (B c) + 246) mod 256))
   \<and> (Get vs ''action'' = ''lighter'' \<longrightarrow>
      SetColor_target (actionHandler (Inr vs)) \<lparr>R = 250, G = 250, B = 250\<rparr>
        = Some \<lparr>R = 4, G = 4, B = 4\<rparr>)"
proof -
  have plus: "unat (x + 10) = (unat x + 10) mod 256" for x :: uint8
    by (simp add: unat_word_ariths)
  have minus: "unat (x - 10) = (unat x + 246) mod 256" for x :: uint8
  proof -
    have "x - 10 = x + 246" by simp
    then show ?thesis by (simp only: unat_word_ariths) simp
  qed
  show ?thesis
    by (simp add: actionHandler_def withRequestedColor_def Let_def plus minus)
qed

theorem lighter_darker_wrap_witness:
  "SetColor_target (actionHandler (Inr [''action'' \<mapsto> [''lighter'']]))
      \<lparr>R = 250, G = 250, B = 250\<rparr> = Some \<lparr>R = 4, G = 4, B = 4\<rparr>
   \<and> (\<exists>t. SetColor_target (actionHandler (Inr [''action'' \<mapsto> [''darker'']]))
         \<lparr>R = 3, G = 10, B = 255\<rparr> = Some t
       \<and> unat (R t) = 249 \<and> unat (G t) = 0 \<and> unat (B t) = 245)"
  using lighter_darker_wrap [of "[''action'' \<mapsto> [''lighter'']]" "\<lparr>R = 250, G = 250, B = 250\<rparr>"]
    lighter_darker_wrap [of "[''action'' \<mapsto> [''darker'']]" "\<lparr>R = 3, G = 10, B = 255\<rparr>"]
  by (simp add: Get_def)

text \<open>
  C9. For the set action each of the query fields r, g and b is read as an unsigned
  8-bit decimal number, and a field that does not parse (missing, not a number, or
  above 255) gives the channel value 0; each channel depends on its own field only.
\<close>

theorem set_action_fields:
  "Get vs ''action'' = ''set'' \<Longrightarrow>
     SetColor_target (actionHandler (Inr vs)) c =
       Some \<lparr>R = field_value (Get vs ''r''), G = field_value (Get vs ''g''),
             B = field_value (Get vs ''b'')\<rparr>"
  by (simp add: actionHandler_def Let_def parseUint8OrZero_field_value)

theorem set_action_fields_witness:
  "Get [''action'' \<mapsto> [''set''], ''r'' \<mapsto> [''255''], ''g'' \<mapsto> [''256''], ''b'' \<mapsto> [''07'', ''9'']] ''action''
     = ''set''
   \<and> SetColor_target
       (actionHandler (Inr [''action'' \<mapsto> [''set''], ''r'' \<mapsto> [''255''], ''g'' \<mapsto> [''256''],
          ''b'' \<mapsto> [''07'', ''9'']])) \<lparr>R = 1, G = 2, B = 3\<rparr>
     = Some \<lparr>R = 255, G = 0, B = 7\<rparr>"
proof -
  let ?vs = "[''action'' \<mapsto> [''set''], ''r'' \<mapsto> [''255''], ''g'' \<mapsto> [''256''], ''b'' \<mapsto> [''07'', ''9'']]"
  have a: "Get ?vs ''action'' = ''set''" by (simp add: Get_def)
  have rv: "field_value (Get ?vs ''r'') = 255"
    by (simp add: Get_def field_value_def is_decimal_digit_def decimal_value_def)
  have gv: "field_value (Get ?vs ''g'') = 0"
    by (simp add: Get_def field_value_def is_decimal_digit_def decimal_value_def)
  have bv: "field_value (Get ?vs ''b'') = 7"
    by (simp add: Get_def field_value_def is_decimal_digit_def decimal_value_def)
  from set_action_fields [OF a, of "\<lparr>R = 1, G = 2, B = 3\<rparr>"] a show ?thesis
    by (simp only: rv gv bv)
qed

section \<open>Rounding to float64\<close>

lemma round_even_error: "\<bar>of_int (round_even q) - q\<bar> \<le> 1 / 2"
proof -
  have "of_int \<lfloor>q\<rfloor> \<le> q" "q < of_int \<lfloor>q\<rfloor> + 1" by linarith+
  then show ?thesis
    by (auto simp: round_even_def Let_def abs_le_iff)
qed

lemma round_even_ge: "of_int m \<le> q \<Longrightarrow> m \<le> round_even q"
proof -
  assume "of_int m \<le> q"
  then have "m \<le> \<lfloor>q\<rfloor>" by (simp add: le_floor_iff)
  then show ?thesis by (auto simp: round_even_def Let_def)
qed

lemma round_even_le: "q \<le> of_int m \<Longrightarrow> round_even q \<le> m"
proof -
  assume le: "q \<le> of_int m"
  show ?thesis
  proof (cases "q = of_int m")
    case True
    then show ?thesis by (simp add: round_even_def Let_def)
  next
    case False
    with le have "q < of_int m" by simp
    then have "\<lfloor>q\<rfloor> < m" by (simp add: floor_less_iff)
    then show ?thesis by (auto simp: round_even_def Let_def)
  qed
qed

lemma powi_nat: "0 \<le> k \<Longrightarrow> (2::rat) powi k = 2 ^ nat k"
  by (simp add: power_int_def)

lemma float64_exponent_bounds:
  assumes "x \<noteq> 0"
  shows "2 powi float64_exponent x \<le> \<bar>x\<bar>" and "\<bar>x\<bar> < 2 powi (float64_exponent x + 1)"
proof -
  obtain n d where q: "quotient_of \<bar>x\<bar> = (n, d)" by force
  have d: "0 < d" using quotient_of_denom_pos [OF q] .
  have x: "\<bar>x\<bar> = of_int n / of_int d" using quotient_of_div [OF q] .
  from assms have "0 < \<bar>x\<bar>" by simp
  with x d have n: "0 < n" by (simp add: zero_less_divide_iff)
  define a c where "a = bitlen n" and "c = bitlen d"
  have a1: "1 \<le> a" using bitlen_nonneg [of n] bitlen_eq_zero_iff [of n] n by (simp add: a_def)
  have c1: "1 \<le> c" using bitlen_nonneg [of d] bitlen_eq_zero_iff [of d] d by (simp add: c_def)
  from bitlen_bounds [OF n] have "2 ^ nat (a - 1) \<le> n" "n < 2 ^ nat a" by (simp_all add: a_def)
  then have "(of_int (2 ^ nat (a - 1)) :: rat) \<le> of_int n" "(of_int n :: rat) < of_int (2 ^ nat a)"
    by (simp_all only: of_int_le_iff of_int_less_iff)
  with a1 have nb: "2 powi (a - 1) \<le> (of_int n :: rat)" "(of_int n :: rat) < 2 powi a"
    by (simp_all add: powi_nat)
  from bitlen_bounds [OF d] have "2 ^ nat (c - 1) \<le> d" "d < 2 ^ nat c" by (simp_all add: c_def)
  then have "(of_int (2 ^ nat (c - 1)) :: rat) \<le> of_int d" "(of_int d :: rat) < of_int (2 ^ nat c)"
    by (simp_all only: of_int_le_iff of_int_less_iff)
  with c1 have db: "2 powi (c - 1) \<le> (of_int d :: rat)" "(of_int d :: rat) < 2 powi c"
    by (simp_all add: powi_nat)
  have dpos: "(0::rat) < of_int d" using d by simp
  have up: "\<bar>x\<bar> < 2 powi (a - c + 1)"
  proof -
    have "\<bar>x\<bar> < 2 powi a / of_int d" unfolding x using nb(2) dpos by (simp add: divide_strict_right_mono)
    also have "\<dots> \<le> 2 powi a / 2 powi (c - 1)" by (rule frac_le) (use db(1) in simp_all)
    also have "\<dots> = 2 powi (a - c + 1)" by (simp add: power_int_diff power_int_add)
    finally show ?thesis .
  qed
  have lo: "2 powi (a - c - 1) < \<bar>x\<bar>"
  proof -
    have "2 powi (a - c - 1) = 2 powi (a - 1) / (2 powi c :: rat)" by (simp add: power_int_diff)
    also have "\<dots> < 2 powi (a - 1) / of_int d" using db(2) dpos by (simp add: divide_strict_left_mono)
    also have "\<dots> \<le> \<bar>x\<bar>" unfolding x using nb(1) dpos by (simp add: divide_right_mono)
    finally show ?thesis .
  qed
  have e: "float64_exponent x = (if 2 powi (a - c) \<le> \<bar>x\<bar> then a - c else a - c - 1)"
    by (simp add: float64_exponent_def q a_def c_def)
  show "2 powi float64_exponent x \<le> \<bar>x\<bar>" using lo by (simp add: e)
  show "\<bar>x\<bar> < 2 powi (float64_exponent x + 1)" using up by (simp add: e)
qed


lemma powi_less_exp: "(2::rat) powi m < 2 powi n \<Longrightarrow> m < n"
proof (rule ccontr)
  assume lt: "(2::rat) powi m < 2 powi n" and "\<not> m < n"
  then have "n \<le> m" by simp
  then have "(2::rat) powi n \<le> 2 powi m" by (rule power_int_increasing) simp
  with lt show False by simp
qed

lemma float64_exponent_less:
  assumes "x \<noteq> 0" and "\<bar>x\<bar> < 2 powi k"
  shows "float64_exponent x < k"
proof -
  from float64_exponent_bounds(1) [OF assms(1)] assms(2)
  have "(2::rat) powi float64_exponent x < 2 powi k" by simp
  then show ?thesis by (rule powi_less_exp)
qed

lemma float64_exponent_ge:
  assumes "x \<noteq> 0" and "2 powi k \<le> \<bar>x\<bar>"
  shows "k \<le> float64_exponent x"
proof -
  from float64_exponent_bounds(2) [OF assms(1)] assms(2)
  have "(2::rat) powi k < 2 powi (float64_exponent x + 1)" by simp
  then have "k < float64_exponent x + 1" by (rule powi_less_exp)
  then show ?thesis by simp
qed

text \<open>The rounding error is at most half a unit in the last place.\<close>

lemma float64_round_ulp:
  assumes "x \<noteq> 0"
  shows "\<bar>float64_round x - x\<bar> \<le> 2 powi (max (float64_exponent x) (- 1022) - 53)"
proof -
  define e where "e = max (float64_exponent x) (- 1022)"
  define u :: rat where "u = 2 powi (e - 52)"
  have u: "0 < u" by (simp add: u_def zero_less_power_int)
  have rn: "float64_round x = of_int (round_even (x / u)) * u"
    using assms by (simp add: float64_round_def Let_def e_def u_def)
  have "float64_round x - x = (of_int (round_even (x / u)) - x / u) * u"
    using u by (simp add: rn field_simps)
  then have "\<bar>float64_round x - x\<bar> = \<bar>of_int (round_even (x / u)) - x / u\<bar> * u"
    using u by (simp add: abs_mult)
  also have "\<dots> \<le> (1 / 2) * u"
    using round_even_error [of "x / u"] u by (intro mult_right_mono) simp_all
  also have "\<dots> = 2 powi (e - 53)"
  proof -
    have "(2::rat) powi (e - 52) = 2 powi (e - 53 + 1)" by simp
    also have "\<dots> = 2 powi (e - 53) * 2" by (subst power_int_add) simp_all
    finally show ?thesis by (simp add: u_def)
  qed
  finally show ?thesis by (simp add: e_def)
qed

text \<open>In the normal range the relative error is at most \<open>2 ^ -53\<close>.\<close>

lemma float64_round_relative:
  assumes "2 powi (- 1022) \<le> \<bar>x\<bar>"
  shows "\<bar>float64_round x - x\<bar> \<le> \<bar>x\<bar> / 2 ^ 53"
proof -
  have "(0::rat) < 2 powi (- 1022)" by (simp add: zero_less_power_int)
  with assms have nz: "x \<noteq> 0" by auto
  define e where "e = float64_exponent x"
  have "- 1022 \<le> e" unfolding e_def using nz assms by (rule float64_exponent_ge)
  then have m: "max e (- 1022) = e" by simp
  have "\<bar>float64_round x - x\<bar> \<le> 2 powi (e - 53)"
    using float64_round_ulp [OF nz] by (simp add: e_def [symmetric] m)
  also have "\<dots> = 2 powi e / 2 ^ 53" by (simp add: power_int_diff)
  also have "\<dots> \<le> \<bar>x\<bar> / 2 ^ 53"
    using float64_exponent_bounds(1) [OF nz] by (simp add: e_def divide_right_mono)
  finally show ?thesis .
qed

text \<open>Rounding never crosses an integer below \<open>2 ^ 53\<close>: integers are doubles.\<close>

lemma float64_round_int_bounds:
  assumes "\<bar>x\<bar> < 2 ^ 53"
  shows "of_int m \<le> x \<Longrightarrow> of_int m \<le> float64_round x"
    and "x \<le> of_int m \<Longrightarrow> float64_round x \<le> of_int m"
proof -
  have both: "(of_int m \<le> x \<longrightarrow> of_int m \<le> float64_round x)
      \<and> (x \<le> of_int m \<longrightarrow> float64_round x \<le> of_int m)"
  proof (cases "x = 0")
    case True
    then show ?thesis by (simp add: float64_round_def)
  next
    case nz: False
    define e where "e = max (float64_exponent x) (- 1022)"
    define u :: rat where "u = 2 powi (e - 52)"
    define N where "N = nat (52 - e)"
    have "\<bar>x\<bar> < 2 powi 53" using assms by simp
    with nz have "float64_exponent x < 53" by (rule float64_exponent_less)
    then have e: "e \<le> 52" by (simp add: e_def)
    have u: "0 < u" by (simp add: u_def zero_less_power_int)
    have "u = 1 / 2 powi (52 - e)" by (simp add: u_def power_int_diff)
    also have "(2::rat) powi (52 - e) = 2 ^ N" using e by (simp add: N_def power_int_nonneg_exp)
    finally have u2: "u = 1 / 2 ^ N" .
    have scale: "of_int m / u = of_int (m * 2 ^ N)" by (simp add: u2)
    have unscale: "of_int (m * 2 ^ N) * u = of_int m" by (simp add: u2)
    have rn: "float64_round x = of_int (round_even (x / u)) * u"
      using nz by (simp add: float64_round_def Let_def e_def u_def)
    show ?thesis
    proof (intro conjI impI)
      assume "of_int m \<le> x"
      then have "of_int (m * 2 ^ N) \<le> x / u" using u by (simp only: scale [symmetric] divide_right_mono)
      then have "m * 2 ^ N \<le> round_even (x / u)" by (rule round_even_ge)
      then have "(of_int (m * 2 ^ N) :: rat) \<le> of_int (round_even (x / u))" by (simp only: of_int_le_iff)
      then have "of_int (m * 2 ^ N) * u \<le> of_int (round_even (x / u)) * u"
        using u by (intro mult_right_mono) simp_all
      then show "of_int m \<le> float64_round x" by (simp only: unscale rn)
    next
      assume "x \<le> of_int m"
      then have "x / u \<le> of_int (m * 2 ^ N)" using u by (simp only: scale [symmetric] divide_right_mono)
      then have "round_even (x / u) \<le> m * 2 ^ N" by (rule round_even_le)
      then have "(of_int (round_even (x / u)) :: rat) \<le> of_int (m * 2 ^ N)" by (simp only: of_int_le_iff)
      then have "of_int (round_even (x / u)) * u \<le> of_int (m * 2 ^ N) * u"
        using u by (intro mult_right_mono) simp_all
      then show "float64_round x \<le> of_int m" by (simp only: unscale rn)
    qed
  qed
  from both show "of_int m \<le> x \<Longrightarrow> of_int m \<le> float64_round x" by simp
  from both show "x \<le> of_int m \<Longrightarrow> float64_round x \<le> of_int m" by simp
qed

lemma unat_uint8_le: "unat (v :: uint8) \<le> 255"
proof -
  have "unat v < 2 ^ LENGTH(8)" by (rule unsigned_less)
  then show ?thesis by simp
qed

lemma fraction_bounds:
  "0 \<le> float64_div (float64_of_uint8 v) 255 \<and> float64_div (float64_of_uint8 v) 255 \<le> 1"
proof -
  define n where "n = unat v"
  define x :: rat where "x = of_nat n / 255"
  have x0: "0 \<le> x" by (simp add: x_def)
  have "(of_nat n :: rat) \<le> of_nat 255" using unat_uint8_le [of v] by (simp only: of_nat_le_iff n_def)
  then have x1: "x \<le> 1" by (simp add: x_def)
  from x0 x1 have small: "\<bar>x\<bar> < 2 ^ 53" by simp
  have "of_int 0 \<le> float64_round x" using x0 by (intro float64_round_int_bounds(1) [OF small]) simp
  moreover have "float64_round x \<le> of_int 1" using x1 by (intro float64_round_int_bounds(2) [OF small]) simp
  ultimately show ?thesis by (simp add: float64_div_def float64_of_uint8_def x_def n_def)
qed

lemma fraction_roundtrip:
  "round (float64_div (float64_of_uint8 v) 255 * 255) = int (unat v)"
proof (cases "unat v = 0")
  case True
  then show ?thesis by (simp add: float64_div_def float64_of_uint8_def float64_round_def)
next
  case False
  define n where "n = unat v"
  define x :: rat where "x = of_nat n / 255"
  define y where "y = float64_round x"
  from False have n1: "1 \<le> n" by (simp add: n_def)
  have n255: "n \<le> 255" unfolding n_def by (rule unat_uint8_le)
  have "(of_nat 1 :: rat) \<le> of_nat n" using n1 by (simp only: of_nat_le_iff)
  then have xlow: "1 / 255 \<le> x" by (simp add: x_def)
  have "(2::rat) powi (- 1022) \<le> 2 powi (- 8)" by (rule power_int_increasing) simp_all
  also have "\<dots> \<le> 1 / 255" by (simp add: power_int_minus)
  also note xlow
  finally have "2 powi (- 1022) \<le> \<bar>x\<bar>" by simp
  then have err: "\<bar>y - x\<bar> \<le> \<bar>x\<bar> / 2 ^ 53" unfolding y_def by (rule float64_round_relative)
  have "(of_nat n :: rat) \<le> of_nat 255" using n255 by (simp only: of_nat_le_iff)
  then have "x \<le> 1" by (simp add: x_def)
  with xlow have "\<bar>x\<bar> / 2 ^ 53 \<le> 1 / 2 ^ 53" by (simp add: divide_right_mono)
  with err have "\<bar>y - x\<bar> \<le> 1 / 2 ^ 53" by linarith
  then have "\<bar>y * 255 - of_nat n\<bar> \<le> 255 / 2 ^ 53" by (simp add: x_def abs_le_iff field_simps)
  then have "\<bar>y * 255 - of_nat n\<bar> < 1 / 2" by simp
  then have "y * 255 - of_nat n < 1 / 2" and "of_nat n - y * 255 < 1 / 2"
    by (simp_all only: abs_less_iff minus_diff_eq)
  then have "of_int (int n) > y * 255 - 1 / 2" and "of_int (int n) \<le> y * 255 + 1 / 2"
    by simp_all
  then have "round (y * 255) = int n" by (rule round_unique)
  then show ?thesis by (simp add: y_def x_def n_def float64_div_def float64_of_uint8_def)
qed


lemma gcorrection_value: "gcorrection = 119 / 255 + 1 / 135107988821114880"
  unfolding gcorrection_def float64_div_def by code_simp

lemma bcorrection_value: "bcorrection = 51 / 255 + 1 / 90071992547409920"
  unfolding bcorrection_def float64_div_def by code_simp

lemma scale_floor:
  fixes c :: rat and a n :: nat
  assumes lo: "of_nat a / 255 \<le> c" and hi: "c \<le> of_nat a / 255 + 1 / 2 ^ 40"
    and a: "a < 255" and n: "n \<le> 255"
  shows "\<lfloor>float64_mul (of_nat n) c\<rfloor> = int (n * a div 255)"
proof -
  define k where "k = n * a div 255"
  define p :: rat where "p = of_nat n * c"
  have c0: "0 \<le> c" using lo by (rule order_trans [rotated]) simp
  have p0: "0 \<le> p" using c0 by (simp add: p_def)
  have "(of_nat n :: rat) \<le> of_nat 255" using n by (simp only: of_nat_le_iff)
  then have nr: "(of_nat n :: rat) \<le> 255" by simp
  from a have "a \<le> 254" by simp
  then have "(of_nat a :: rat) \<le> of_nat 254" by (simp only: of_nat_le_iff)
  then have ar: "(of_nat a :: rat) \<le> 254" by simp
  have "255 * k \<le> n * a" by (simp add: k_def)
  then have "(of_nat (255 * k) :: rat) \<le> of_nat (n * a)" by (simp only: of_nat_le_iff)
  then have klo: "of_nat k \<le> of_nat n * (of_nat a / 255 :: rat)" by simp
  have "n * a < 255 * k + 255" unfolding k_def using div_mult_mod_eq [of "n * a" 255] by simp
  then have "n * a \<le> 255 * k + 254" by simp
  then have "(of_nat (n * a) :: rat) \<le> of_nat (255 * k + 254)" by (simp only: of_nat_le_iff)
  then have khi: "of_nat n * (of_nat a / 255 :: rat) \<le> of_nat k + 254 / 255" by simp
  have plo: "of_nat k \<le> p"
  proof -
    have "of_nat n * (of_nat a / 255) \<le> of_nat n * c" using lo by (intro mult_left_mono) simp_all
    with klo show ?thesis by (simp add: p_def)
  qed
  have phi: "p \<le> of_nat k + 254 / 255 + 255 / 2 ^ 40"
  proof -
    have "p \<le> of_nat n * (of_nat a / 255 + 1 / 2 ^ 40)"
      unfolding p_def using hi by (intro mult_left_mono) simp_all
    also have "\<dots> = of_nat n * (of_nat a / 255) + of_nat n / 2 ^ 40" by (simp add: algebra_simps)
    also have "\<dots> \<le> (of_nat k + 254 / 255) + 255 / 2 ^ 40"
      using khi nr by (intro add_mono divide_right_mono) simp_all
    finally show ?thesis .
  qed
  have p256: "p < 256"
  proof -
    have "p \<le> 255 * (254 / 255 + 1 / 2 ^ 40)"
      unfolding p_def using nr ar hi c0 by (intro mult_mono) simp_all
    then show ?thesis by simp
  qed
  define y where "y = float64_round p"
  have small: "\<bar>p\<bar> < 2 ^ 53" using p0 p256 by simp
  have ylo: "of_nat k \<le> y"
    using float64_round_int_bounds(1) [OF small, of "int k"] plo by (simp add: y_def)
  have yhi: "y < of_nat k + 1"
  proof (cases "p = 0")
    case True
    then show ?thesis by (simp add: y_def float64_round_def) 
  next
    case False
    have "\<bar>p\<bar> < 2 powi 8" using p0 p256 by simp
    with False have "float64_exponent p < 8" by (rule float64_exponent_less)
    then have "max (float64_exponent p) (- 1022) - 53 \<le> - 46" by simp
    then have "(2::rat) powi (max (float64_exponent p) (- 1022) - 53) \<le> 2 powi (- 46)"
      by (rule power_int_increasing) simp
    with float64_round_ulp [OF False] have "\<bar>y - p\<bar> \<le> 2 powi (- 46)" by (simp add: y_def)
    then have "y - p \<le> 2 powi (- 46)" by (simp only: abs_le_iff)
    moreover have "(2::rat) powi (- 46) = 1 / 2 ^ 46" by (simp add: power_int_minus_divide)
    ultimately have "y \<le> p + 1 / 2 ^ 46" by linarith
    with phi have "y \<le> of_nat k + (254 / 255 + 255 / 2 ^ 40 + 1 / 2 ^ 46)" by simp
    also have "\<dots> < of_nat k + 1" by simp
    finally show ?thesis .
  qed
  from ylo yhi have "\<lfloor>y\<rfloor> = int k" by (intro floor_unique) simp_all
  then show ?thesis by (simp add: y_def p_def k_def float64_mul_def)
qed

lemma correct_green:
  "uint8_of_float64 (float64_mul (float64_of_uint8 v) gcorrection) = word_of_nat (unat v * 119 div 255)"
proof -
  have "\<lfloor>float64_mul (of_nat (unat v)) gcorrection\<rfloor> = int (unat v * 119 div 255)"
    by (rule scale_floor) (simp_all add: gcorrection_value unat_uint8_le)
  moreover from this have "0 \<le> float64_mul (of_nat (unat v)) gcorrection"
    by (simp add: floor_eq_iff)
  ultimately show ?thesis
    by (simp add: uint8_of_float64_def float64_of_uint8_def del: of_nat_unat)
qed

section \<open>The Device Writer and the gamma-corrected set\<close>

lemma correct_blue:
  "uint8_of_float64 (float64_mul (float64_of_uint8 v) bcorrection) = word_of_nat (unat v * 51 div 255)"
proof -
  have "\<lfloor>float64_mul (of_nat (unat v)) bcorrection\<rfloor> = int (unat v * 51 div 255)"
    by (rule scale_floor) (simp_all add: bcorrection_value unat_uint8_le)
  moreover from this have "0 \<le> float64_mul (of_nat (unat v)) bcorrection"
    by (simp add: floor_eq_iff)
  ultimately show ?thesis
    by (simp add: uint8_of_float64_def float64_of_uint8_def del: of_nat_unat)
qed

lemma correctColor_eq:
  "correctColor c = \<lparr>R = R c, G = word_of_nat (unat (G c) * 119 div 255),
     B = word_of_nat (unat (B c) * 51 div 255)\<rparr>"
  by (simp add: correctColor_def Let_def correct_green correct_blue)

lemma uint8_in_range: "\<not> 255 < val \<and> \<not> val < 0" for val :: uint8
  using unat_uint8_le [of val] by (simp add: word_less_nat_alt)

lemma setChannelInteger_eq:
  "setChannelInteger bl pin val =
     (bl\<lparr>pipe := fst (File_Write (pipe bl) (pin, fraction val))\<rparr>, None)"
  using uint8_in_range [of val]
  by (simp add: setChannelInteger_def setPin_def fraction_def Let_def split_beta)

lemma wcalls_File_Write:
  "wcalls (fst (File_Write f cmd)) = wcalls f @ [(cmd, snd (File_Write f cmd))]"
  by (simp add: File_Write_def Let_def)

text \<open>
  C10. For every 8-bit channel value neither out-of-range branch of
  \<^verbatim>\<open>setChannelInteger\<close> can be taken: the operation returns no error and makes exactly
  one write call on the pipe, for the given pin, with a fraction between 0 and 1.
\<close>

theorem setChannelInteger_total:
  "\<not> 255 < val \<and> \<not> val < 0
   \<and> snd (setChannelInteger bl pin val) = None
   \<and> wcalls (pipe (fst (setChannelInteger bl pin val)))
       = wcalls (pipe bl) @ [((pin, fraction val), snd (File_Write (pipe bl) (pin, fraction val)))]
   \<and> 0 \<le> fraction val \<and> fraction val \<le> 1"
  using uint8_in_range [of val] fraction_bounds [of val]
  by (simp add: setChannelInteger_eq wcalls_File_Write fraction_def)

text \<open>
  C8. For every channel value \<open>v\<close> of 0..255 the channel-write path loses nothing:
  the one command that \<^verbatim>\<open>setChannelInteger\<close> writes for \<open>v\<close> carries the fraction
  \<^verbatim>\<open>float64(v) / 255.0\<close>, and that fraction, multiplied by 255 and rounded to the nearest
  integer, is \<open>v\<close> again, for each of the 256 values.
\<close>

theorem written_fraction_round_trip:
  "\<exists>f res. wcalls (pipe (fst (setChannelInteger bl pin v))) = wcalls (pipe bl) @ [((pin, f), res)]
     \<and> f = float64_div (float64_of_uint8 v) 255
     \<and> round (f * 255) = int (unat v)
     \<and> word_of_int (round (f * 255)) = v"
proof -
  let ?f = "float64_div (float64_of_uint8 v) 255"
  have w: "wcalls (pipe (fst (setChannelInteger bl pin v)))
      = wcalls (pipe bl) @ [((pin, ?f), snd (File_Write (pipe bl) (pin, ?f)))]"
    by (simp add: setChannelInteger_eq wcalls_File_Write fraction_def)
  have rt: "round (?f * 255) = int (unat v)" by (rule fraction_roundtrip)
  then have "word_of_int (round (?f * 255)) = v" by simp
  with w rt show ?thesis by blast
qed

lemma setRed_eq:
  "setRed fl bl val = (bl\<lparr>pipe := fst (File_Write (pipe bl) (flag_R fl, fraction val)), r := val\<rparr>, None)"
  by (simp add: setRed_def setChannelInteger_eq)

lemma setGreen_eq:
  "setGreen fl bl val = (bl\<lparr>pipe := fst (File_Write (pipe bl) (flag_G fl, fraction val)), g := val\<rparr>, None)"
  by (simp add: setGreen_def setChannelInteger_eq)

lemma setBlue_eq:
  "setBlue fl bl val = (bl\<lparr>pipe := fst (File_Write (pipe bl) (flag_B fl, fraction val)), b := val\<rparr>, None)"
  by (simp add: setBlue_def setChannelInteger_eq)

lemma setAll_colour:
  "r (setAll fl bl c) = R (correctColor c) \<and> g (setAll fl bl c) = G (correctColor c)
   \<and> b (setAll fl bl c) = B (correctColor c)"
  by (simp add: setAll_def Let_def setRed_eq setGreen_eq setBlue_eq)

lemma setAll_writes:
  "map fst (wcalls (pipe (setAll fl bl c))) = map fst (wcalls (pipe bl))
     @ [(flag_R fl, fraction (R (correctColor c))), (flag_G fl, fraction (G (correctColor c))),
        (flag_B fl, fraction (B (correctColor c)))]"
  by (simp add: setAll_def Let_def setRed_eq setGreen_eq setBlue_eq wcalls_File_Write)

text \<open>
  C3. In the gamma-corrected revision the correction leaves red as it is and replaces
  green by \<open>\<lfloor>green * 119 / 255\<rfloor>\<close> and blue by \<open>\<lfloor>blue * 51 / 255\<rfloor>\<close>; \<^verbatim>\<open>setAll\<close> writes
  the three corrected values, one command per pin, and stores the corrected colour, not
  the requested one; the colour (200, 200, 200) is corrected to (200, 93, 40).
\<close>

theorem gamma_corrected_set:
  "correctColor c = \<lparr>R = R c, G = word_of_nat (unat (G c) * 119 div 255),
       B = word_of_nat (unat (B c) * 51 div 255)\<rparr>
   \<and> unat (G (correctColor c)) = unat (G c) * 119 div 255
   \<and> unat (B (correctColor c)) = unat (B c) * 51 div 255
   \<and> map fst (wcalls (pipe (setAll fl bl c))) = map fst (wcalls (pipe bl))
       @ [(flag_R fl, fraction (R (correctColor c))), (flag_G fl, fraction (G (correctColor c))),
          (flag_B fl, fraction (B (correctColor c)))]
   \<and> \<lparr>R = r (setAll fl bl c), G = g (setAll fl bl c), B = b (setAll fl bl c)\<rparr> = correctColor c
   \<and> correctColor \<lparr>R = 200, G = 200, B = 200\<rparr> = \<lparr>R = 200, G = 93, B = 40\<rparr>"
proof -
  have gle: "unat (G c) * 119 div 255 < 2 ^ LENGTH(8)"
    using unat_uint8_le [of "G c"] by simp
  have ble: "unat (B c) * 51 div 255 < 2 ^ LENGTH(8)"
    using unat_uint8_le [of "B c"] by simp
  have ug: "unat (G (correctColor c)) = unat (G c) * 119 div 255"
    using gle by (simp add: correctColor_eq unat_of_nat)
  have ub: "unat (B (correctColor c)) = unat (B c) * 51 div 255"
    using ble by (simp add: correctColor_eq unat_of_nat)
  have ex: "correctColor \<lparr>R = 200, G = 200, B = 200\<rparr> = \<lparr>R = 200, G = 93, B = 40\<rparr>"
    by (simp add: correctColor_eq)
  show ?thesis
    using correctColor_eq [of c] ug ub setAll_writes [of fl bl c] setAll_colour [of fl bl c] ex
    by simp
qed

section \<open>The gradual fade\<close>

text \<open>No setter of the first revision assigns a field of the struct, so no fade does.\<close>

lemma setChannelInteger_colour:
  "r (fst (setChannelInteger bl pin val)) = r bl \<and> g (fst (setChannelInteger bl pin val)) = g bl
   \<and> b (fst (setChannelInteger bl pin val)) = b bl"
  by (simp add: setChannelInteger_eq)

lemma keeps_colour_fade:
  "keeps_colour (setRed_fade fl)" "keeps_colour (setGreen_fade fl)" "keeps_colour (setBlue_fade fl)"
  by (simp_all add: keeps_colour_def setRed_fade_def setGreen_fade_def setBlue_fade_def
      setChannelInteger_colour)

lemma incrementer_colour:
  "keeps_colour f \<Longrightarrow> r (incrementer i target f bl) = r bl \<and> g (incrementer i target f bl) = g bl
     \<and> b (incrementer i target f bl) = b bl"
proof (induction i target f bl rule: incrementer.induct)
  case (1 i target f bl)
  show ?case
  proof (cases "i < target")
    case True
    then have step: "incrementer i target f bl = incrementer (i + 1) target f (fst (f i bl))"
      by (simp add: incrementer.simps [of i target f bl])
    from "1.prems" have "r (fst (f i bl)) = r bl" "g (fst (f i bl)) = g bl" "b (fst (f i bl)) = b bl"
      by (simp_all add: keeps_colour_def)
    with "1.IH" [OF True "1.prems"] show ?thesis by (simp only: step)
  next
    case False
    then have "incrementer i target f bl = bl"
      by (simp add: incrementer.simps [of i target f bl])
    then show ?thesis by simp
  qed
qed

lemma decrementer_colour:
  "keeps_colour f \<Longrightarrow> r (decrementer i target f bl) = r bl \<and> g (decrementer i target f bl) = g bl
     \<and> b (decrementer i target f bl) = b bl"
proof (induction i target f bl rule: decrementer.induct)
  case (1 i target f bl)
  show ?case
  proof (cases "target < i")
    case True
    then have step: "decrementer i target f bl = decrementer (i - 1) target f (fst (f i bl))"
      by (simp add: decrementer.simps [of i target f bl])
    from "1.prems" have "r (fst (f i bl)) = r bl" "g (fst (f i bl)) = g bl" "b (fst (f i bl)) = b bl"
      by (simp_all add: keeps_colour_def)
    with "1.IH" [OF True "1.prems"] show ?thesis by (simp only: step)
  next
    case False
    then have "decrementer i target f bl = bl"
      by (simp add: decrementer.simps [of i target f bl])
    then show ?thesis by simp
  qed
qed

lemma setter_colour:
  "keeps_colour f \<Longrightarrow> r (setter cur target f bl) = r bl \<and> g (setter cur target f bl) = g bl
     \<and> b (setter cur target f bl) = b bl"
  by (simp add: setter_def incrementer_colour decrementer_colour)

lemma setAll_fade_colour:
  "r (setAll_fade fl bl c) = r bl \<and> g (setAll_fade fl bl c) = g bl \<and> b (setAll_fade fl bl c) = b bl"
  by (simp add: setAll_fade_def Let_def setter_colour keeps_colour_fade)

text \<open>
  C2. In the gradual-fade revision a SetColor should write once per unit step from the
  current channel value to the target and leave the stored value equal to the target.
  The code does neither at the colour (3, 0, 0) from the initial colour (0, 0, 0): the
  loop writes red for 0, 1 and 2 and stops before the target 3, and the stored red is
  still 0 afterwards.
\<close>

theorem fade_stops_short:
  "map fst (wcalls (pipe (setAll_fade default_flags (NewBlaster\<lparr>pipe := good_File\<rparr>)
       \<lparr>R = 3, G = 0, B = 0\<rparr>)))
     = [(17, float64_div (float64_of_uint8 0) 255), (17, float64_div (float64_of_uint8 1) 255),
        (17, float64_div (float64_of_uint8 2) 255)]
   \<and> r (setAll_fade default_flags (NewBlaster\<lparr>pipe := good_File\<rparr>) \<lparr>R = 3, G = 0, B = 0\<rparr>) = 0"
proof -
  have inc: "incrementer 0 3 f bl = fst (f 2 (fst (f 1 (fst (f 0 bl)))))" for f bl
    by (simp add: incrementer.simps)
  have dec: "decrementer 0 0 f bl = bl" for f bl
    by (simp add: decrementer.simps)
  show ?thesis
    by (simp add: setAll_fade_def setter_def inc dec Let_def NewBlaster_def good_File_def
        default_flags_def setRed_fade_def setChannelInteger_eq wcalls_File_Write File_Write_def
        fraction_def)
qed

section \<open>Start-up\<close>

text \<open>
  C4. When the pipe does not exist, the daemon should be started once and the open
  tried once more, and the program should never serve with an unopened device. On a
  machine where the first open fails with \<^verbatim>\<open>ENOENT\<close> and the daemon starts, the code opens
  once, starts once and returns the nil file of the failed open: the actor runs, with a
  nil pipe, and every write of a SetColor then fails with \<^verbatim>\<open>os.ErrInvalid\<close>.
\<close>

theorem start_without_reopen:
  "fst (mustOpenPiBlaster daemon_down) = Inr nil_File
   \<and> open_calls (snd (mustOpenPiBlaster daemon_down)) = 1
   \<and> start_calls (snd (mustOpenPiBlaster daemon_down)) = 1
   \<and> proc (Run_start daemon_down) = Alive
   \<and> isnil (pipe (actor (Run_start daemon_down)))
   \<and> map_option (\<lambda>s. map snd (wcalls (pipe (actor s))))
        (Run_step default_flags (RecvInput \<lparr>R = 255, G = 255, B = 255\<rparr>) (Run_start daemon_down))
       = Some [Some ErrInvalid, Some ErrInvalid, Some ErrInvalid]"
proof -
  have m: "mustOpenPiBlaster daemon_down = (Inr nil_File, daemon_down\<lparr>open_calls := 1, start_calls := 1\<rparr>)"
    by (simp add: mustOpenPiBlaster_def os_OpenFile_def attemptPiBlasterStart_def daemon_down_def
        open_after_start_def start_ok_def Let_def)
  have s: "Run_start daemon_down = \<lparr>actor = NewBlaster\<lparr>pipe := nil_File\<rparr>, guards = [], replies = [],
      logs = [], proc = Alive\<rparr>"
    by (simp add: Run_start_def m)
  show ?thesis
    by (simp add: m s Run_step_def nil_File_def NewBlaster_def setAll_def setRed_eq setGreen_eq
        setBlue_eq Let_def File_Write_def)
qed

section \<open>The actor\<close>

lemma selecting_mem: "Selecting ch v \<in> set gs \<Longrightarrow> \<exists>v'. selecting ch gs = Some v'"
proof (induction gs)
  case Nil
  then show ?case by simp
next
  case (Cons gd gs)
  then show ?case by (cases gd) auto
qed

text \<open>
  C1, as stated: a query whose reply is never read leaves a live process that
  goes on processing messages. It fails: after the query on channel 0 has timed out,
  the process has exited with status 1 and a SetColor is not processed.
\<close>

theorem timeout_is_fatal_counterexample:
  "map_option proc (Run default_flags [RecvColor 0, Enter 0, Timeout 0] good_System) = Some (Exited 1)
   \<and> Option.bind (Run default_flags [RecvColor 0, Enter 0, Timeout 0] good_System)
         (Run_step default_flags (RecvInput \<lparr>R = 1, G = 2, B = 3\<rparr>)) = None"
  by (simp add: Run_step_def good_System_def NewBlaster_def)

text \<open>
  C1, amended. When the reply of a query cannot be delivered within the five seconds,
  the delivery is abandoned and the line "Requested color chan blocked too long." is
  logged; the actor's colour, its pipe and the other guards are left as they were, but
  \<^verbatim>\<open>log.Fatal\<close> ends the process with status 1 and no further event is processed.
\<close>

theorem timeout_is_fatal:
  "proc s = Alive \<Longrightarrow> Selecting ch v \<in> set (guards s) \<Longrightarrow>
     \<exists>s'. Run_step fl (Timeout ch) s = Some s'
       \<and> logs s' = logs s @ [LogLine ''Requested color chan blocked too long.'']
       \<and> proc s' = Exited 1
       \<and> actor s' = actor s \<and> guards s' = guards s \<and> replies s' = replies s
       \<and> (\<forall>ev. Run_step fl ev s' = None)"
proof -
  assume alive: "proc s = Alive" and mem: "Selecting ch v \<in> set (guards s)"
  from selecting_mem [OF mem] obtain v' where "selecting ch (guards s) = Some v'" ..
  with alive show ?thesis by (simp add: Run_step_def)
qed

theorem timeout_is_fatal_witness:
  "\<exists>s'. Run_step default_flags (Timeout 0)
          (good_System\<lparr>guards := [Selecting 0 \<lparr>R = 0, G = 0, B = 0\<rparr>]\<rparr>) = Some s'
     \<and> logs s' = [LogLine ''Requested color chan blocked too long.'']
     \<and> proc s' = Exited 1
     \<and> Run_step default_flags (RecvInput \<lparr>R = 1, G = 2, B = 3\<rparr>) s' = None"
proof -
  have a: "proc (good_System\<lparr>guards := [Selecting 0 \<lparr>R = 0, G = 0, B = 0\<rparr>]\<rparr>) = Alive"
    by (simp add: good_System_def)
  have m: "Selecting 0 \<lparr>R = 0, G = 0, B = 0\<rparr>
      \<in> set (guards (good_System\<lparr>guards := [Selecting 0 \<lparr>R = 0, G = 0, B = 0\<rparr>]\<rparr>))"
    by simp
  from timeout_is_fatal [OF a m, of default_flags] show ?thesis
    by (auto simp: good_System_def)
qed




text \<open>
  C6, as stated: a write returns success or an I/O error, and a failed write
  to the device sink reaches the log. It fails: on a pipe whose reader has gone the
  \<^verbatim>\<open>Write\<close> fails with \<^verbatim>\<open>EPIPE\<close>, \<^verbatim>\<open>setPin\<close> returns nil all the same, and the log is
  empty after a SetColor.
\<close>

theorem write_error_dropped_counterexample:
  "snd (File_Write broken_File (17, 1)) = Some (PathError EPIPE)
   \<and> snd (setPin (NewBlaster\<lparr>pipe := broken_File\<rparr>) 17 1) = None
   \<and> map_option logs (Run_step default_flags (RecvInput \<lparr>R = 255, G = 0, B = 0\<rparr>) broken_System)
       = Some []"
  by (simp add: File_Write_def broken_File_def broken_def setPin_def Run_step_def
      broken_System_def NewBlaster_def Let_def)

text \<open>
  C6, amended. \<^verbatim>\<open>setPin\<close> makes its one \<^verbatim>\<open>Write\<close> on the pipe and always returns nil: the
  result of the \<^verbatim>\<open>Write\<close> is dropped, and processing a SetColor adds nothing to the log
  and does not end the process, whatever the writes returned.
\<close>

theorem write_error_dropped:
  "snd (setPin bl pin val) = None
   \<and> pipe (fst (setPin bl pin val)) = fst (File_Write (pipe bl) (pin, val))
   \<and> (\<forall>s'. Run_step fl (RecvInput c) s = Some s' \<longrightarrow> logs s' = logs s \<and> proc s' = proc s)"
  by (auto simp: setPin_def Let_def split_beta Run_step_def split: if_splits)

theorem write_error_dropped_witness:
  "snd (setPin (NewBlaster\<lparr>pipe := broken_File\<rparr>) 17 1) = None
   \<and> map snd (wcalls (pipe (fst (setPin (NewBlaster\<lparr>pipe := broken_File\<rparr>) 17 1))))
       = [Some (PathError EPIPE)]
   \<and> (\<exists>s'. Run_step default_flags (RecvInput \<lparr>R = 255, G = 0, B = 0\<rparr>) broken_System = Some s'
         \<and> logs s' = [] \<and> proc s' = Alive)"
proof -
  have st: "\<exists>s'. Run_step default_flags (RecvInput \<lparr>R = 255, G = 0, B = 0\<rparr>) broken_System = Some s'"
    by (simp add: Run_step_def broken_System_def)
  from write_error_dropped [of "NewBlaster\<lparr>pipe := broken_File\<rparr>" 17 1 default_flags
      "\<lparr>R = 255, G = 0, B = 0\<rparr>" broken_System] st
  show ?thesis
    by (auto simp: File_Write_def broken_File_def broken_def NewBlaster_def broken_System_def Let_def)
qed

end
